theory Spec2Isabelle
  imports Main "HOL-Library.Sublist"
begin

text \<open>
  A model of \<^verbatim>\<open>convert_pdfs_to_markdown.py\<close>: the script lists the documents of an input
  directory, sends each to a remote conversion service with at most ten requests in
  flight, writes the Markdown it gets back, and prints a summary.

  The functions of the script (\<^verbatim>\<open>parse_args\<close>, \<^verbatim>\<open>process_file\<close>, \<^verbatim>\<open>main\<close>) are
  translated line by line. What they call in the Python library is modelled beside
  them: \<^verbatim>\<open>pathlib\<close>, \<^verbatim>\<open>argparse\<close>, the semaphore and the event loop of \<^verbatim>\<open>asyncio\<close>,
  and the file system. Left out are the texts printed and the description of the
  progress bar, the assignment to \<^verbatim>\<open>os.environ\<close>, the set-up and tear-down of the
  client, and exceptions outside the class \<^verbatim>\<open>Exception\<close> (cancellation, interrupts).
\<close>

section \<open>Paths (pathlib, POSIX flavour)\<close>

text \<open>
  The script handles file names only through \<^verbatim>\<open>pathlib.Path\<close>. A POSIX path is
  a root (\<^verbatim>\<open>''\<close>, \<^verbatim>\<open>'/'\<close> or \<^verbatim>\<open>'//'\<close>) and a list of components; the drive
  is always empty. Paths are compared component by component, as pathlib does: neither
  \<^verbatim>\<open>..\<close> nor symbolic links are resolved. A \<^typ>\<open>char\<close> stands for one character of
  a Python string, so \<^const>\<open>take\<close> and \<^const>\<open>length\<close> count what the slices count.
\<close>

datatype Path = Path (root: string) (parts: "string list")

text \<open>\<^verbatim>\<open>s.split('/')\<close>: the fields between the separators, empty ones included.\<close>

fun split_sep :: "string \<Rightarrow> string list" where
  "split_sep [] = [[]]"
| "split_sep (c # cs) =
     (if c = CHR ''/'' then [] # split_sep cs
      else (c # hd (split_sep cs)) # tl (split_sep cs))"

text \<open>
  \<^verbatim>\<open>posixpath.splitroot\<close>: no leading slash, no root; exactly two leading slashes
  are kept as the root; one, or three and more, collapse to a single slash.
\<close>

definition splitroot :: "string \<Rightarrow> string \<times> string" where
  "splitroot p =
     (if take 1 p \<noteq> ''/'' then ('''', p)
      else if take 1 (drop 1 p) \<noteq> ''/'' \<or> take 1 (drop 2 p) = ''/'' then (''/'', drop 1 p)
      else (take 2 p, drop 2 p))"

text \<open>The components of a relative string: empty fields and \<^verbatim>\<open>.\<close> are dropped.\<close>

definition parse_parts :: "string \<Rightarrow> string list" where
  "parse_parts rel = filter (\<lambda>x. x \<noteq> [] \<and> x \<noteq> ''.'') (split_sep rel)"

text \<open>\<^verbatim>\<open>Path(s)\<close>.\<close>

definition Path_of :: "string \<Rightarrow> Path" where
  "Path_of s = (if s = [] then Path [] []
                else (case splitroot s of (r, rel) \<Rightarrow> Path r (parse_parts rel)))"

text \<open>\<^verbatim>\<open>'/'.join(xs)\<close>.\<close>

fun join_sep :: "string list \<Rightarrow> string" where
  "join_sep [] = []"
| "join_sep [x] = x"
| "join_sep (x # y # ys) = x @ ''/'' @ join_sep (y # ys)"

text \<open>\<^verbatim>\<open>str(p)\<close>: the root followed by the joined components, or \<^verbatim>\<open>.\<close> when both are empty.\<close>

definition str :: "Path \<Rightarrow> string" where
  "str p = (let s = root p @ join_sep (parts p) in if s = [] then ''.'' else s)"

text \<open>\<^verbatim>\<open>p.name\<close>: the last component, or the empty string when there is none.\<close>

definition name :: "Path \<Rightarrow> string" where
  "name p = (if parts p = [] then [] else last (parts p))"

text \<open>\<^verbatim>\<open>p.parent\<close>: the path without its last component; a path with none is its own parent.\<close>

definition parent :: "Path \<Rightarrow> Path" where
  "parent p = (if parts p = [] then p else Path (root p) (butlast (parts p)))"

text \<open>
  \<^verbatim>\<open>p / key\<close> for a string key: the strings are joined by \<^verbatim>\<open>posixpath.join\<close> and
  parsed again, so an absolute key replaces the path, and a relative key appends its
  components.
\<close>

definition truediv :: "Path \<Rightarrow> string \<Rightarrow> Path" where
  "truediv p key =
     (if take 1 key = ''/'' then Path_of key
      else Path (root p) (parts p @ parse_parts key))"

text \<open>\<^verbatim>\<open>s.rfind(c)\<close>: the index of the last occurrence, -1 when there is none.\<close>

fun rfind :: "string \<Rightarrow> char \<Rightarrow> int" where
  "rfind [] c = -1"
| "rfind (x # xs) c =
     (let i = rfind xs c in
      if i \<noteq> -1 then i + 1 else if x = c then 0 else -1)"

text \<open>\<^verbatim>\<open>p.stem\<close>: the name without its last suffix; a leading or a trailing dot is no suffix.\<close>

definition stem :: "Path \<Rightarrow> string" where
  "stem p =
     (let n = name p; i = rfind n CHR ''.'' in
      if 0 < i \<and> i < int (length n) - 1 then take (nat i) n else n)"

section \<open>Command line\<close>

text \<open>
  \<^verbatim>\<open>argparse\<close> is modelled by what it hands over: for each option, the value given on
  the command line, if any. \<^verbatim>\<open>-i\<close> is required and \<^verbatim>\<open>-f\<close> is restricted to four
  choices; on a violation the parser prints a usage message and exits with status 2
  (\<^verbatim>\<open>-h\<close> is not modelled).
\<close>

record cmdline =
  opt_input :: "string option"
  opt_output :: "string option"
  opt_format :: "string option"

record args =
  arg_input :: string
  arg_output :: string
  arg_format :: string

text \<open>The default of \<^verbatim>\<open>--output\<close>, lines 59 to 67 of the script.\<close>

definition default_output :: "string \<Rightarrow> string" where
  "default_output inp =
     (let input_path = Path_of inp in
      if name input_path \<noteq> []
      then str (truediv (parent input_path) (name input_path @ ''_Markdown''))
      else str (truediv input_path ''Markdown''))"

definition parse_args :: "cmdline \<Rightarrow> nat + args" where
  "parse_args cl =
     (case opt_input cl of
        None \<Rightarrow> Inl 2
      | Some inp \<Rightarrow>
          let fmt = (case opt_format cl of None \<Rightarrow> ''pdf'' | Some f \<Rightarrow> f) in
          if fmt \<notin> set [''pdf'', ''epub'', ''html'', ''all''] then Inl 2
          else
            let out = (case opt_output cl of None \<Rightarrow> [] | Some out \<Rightarrow> out) in
            Inr \<lparr>arg_input = inp,
                 arg_output = (if out = [] then default_output inp else out),
                 arg_format = fmt\<rparr>)"

section \<open>The environment: file system, operating system, remote service\<close>

text \<open>
  A file system maps a path to what is stored there. A path without components (the root,
  or the current directory) is always a directory.
\<close>

datatype node = Dir | File string

type_synonym filesystem = "Path \<Rightarrow> node option"

definition path_exists :: "filesystem \<Rightarrow> Path \<Rightarrow> bool" where
  "path_exists f p = (parts p = [] \<or> f p \<noteq> None)"

definition is_dir :: "filesystem \<Rightarrow> Path \<Rightarrow> bool" where
  "is_dir f p = (parts p = [] \<or> f p = Some Dir)"

definition is_file :: "filesystem \<Rightarrow> Path \<Rightarrow> bool" where
  "is_file f p = (case f p of Some (File c) \<Rightarrow> True | _ \<Rightarrow> False)"

text \<open>
  What \<^verbatim>\<open>await client.convert(...)\<close> delivers: an exception of class \<^verbatim>\<open>Exception\<close>,
  represented by its text \<^verbatim>\<open>str(e)\<close> (the script inspects nothing else of it), or a
  result, represented by \<^verbatim>\<open>getattr(result, "markdown", None)\<close>.
\<close>

datatype response = Raises string | Returns "string option"

text \<open>
  A task of the batch is either not yet past \<^verbatim>\<open>async with semaphore\<close>, or suspended in
  \<^verbatim>\<open>await client.convert(...)\<close>, or has returned its result tuple. The event loop runs
  one task at a time, from one suspension point to the next: \<open>Start i\<close> lets task \<open>i\<close>
  run from its beginning, \<open>Reply i\<close> resumes it with the answer of the remote service.
\<close>

type_synonym result = "bool \<times> string \<times> string"

datatype task = Pending | Awaiting | Done result

datatype event = Start nat | Reply nat

datatype syscall = Makedirs string | Mkdir Path | Write_text Path

text \<open>
  Everything the script does not decide is a field of the host: the process environment,
  the entries of a directory, the iteration order of a Python \<^verbatim>\<open>set\<close> (given by a rank),
  the answers of the remote service by file path, the calls the operating system refuses
  for reasons outside this model (permissions, a full disk) with the text of the
  \<^verbatim>\<open>OSError\<close> a failing call raises, and the order in which the event loop runs the tasks.
\<close>

record host =
  getenv :: "string \<Rightarrow> string option"
  scandir :: "Path \<Rightarrow> string list"
  hash_rank :: "Path \<Rightarrow> nat"
  convert :: "string \<Rightarrow> response"
  os_denies :: "syscall \<Rightarrow> bool"
  os_text :: "syscall \<Rightarrow> string"
  schedule :: "event list"

text \<open>
  \<^verbatim>\<open>p.mkdir(parents=True, exist_ok=True)\<close> and \<^verbatim>\<open>os.makedirs(s, exist_ok=True)\<close>:
  every missing directory down to \<open>p\<close> is created; the call raises when one of them
  exists as a regular file, or when the operating system refuses.
\<close>

definition dir_chain :: "Path \<Rightarrow> Path list" where
  "dir_chain p = map (Path (root p)) (tl (prefixes (parts p)))"

definition add_dir :: "Path \<Rightarrow> filesystem \<Rightarrow> filesystem" where
  "add_dir q f = (if f q = None then f(q \<mapsto> Dir) else f)"

definition mkdir :: "host \<Rightarrow> syscall \<Rightarrow> Path \<Rightarrow> filesystem \<Rightarrow> string + filesystem" where
  "mkdir h call p f =
     (if os_denies h call \<or> list_ex (is_file f) (dir_chain p) then Inl (os_text h call)
      else Inr (fold add_dir (dir_chain p) f))"

text \<open>
  \<^verbatim>\<open>p.write_text(content, encoding="utf-8")\<close>: the file is created or replaced; the call
  raises when \<open>p\<close> is a directory, when its parent is not one, or when the operating
  system refuses.
\<close>

definition write_text :: "host \<Rightarrow> Path \<Rightarrow> string \<Rightarrow> filesystem \<Rightarrow> string + filesystem" where
  "write_text h p content f =
     (if os_denies h (Write_text p) \<or> is_dir f p \<or> \<not> is_dir f (parent p)
      then Inl (os_text h (Write_text p))
      else Inr (f(p \<mapsto> File content)))"

section \<open>process\_file\<close>

text \<open>
  The state a task works on: the file system, the calls issued to the remote service so
  far (by file path), the count of the progress bar (its description is cosmetic and left
  out), and the value of the semaphore.
\<close>

record world =
  fs :: filesystem
  remote_calls :: "string list"
  pbar_n :: nat
  permits :: nat

definition markdown_file_of :: "Path \<Rightarrow> args \<Rightarrow> Path" where
  "markdown_file_of file_path a = truediv (Path_of (arg_output a)) (stem file_path @ ''.md'')"

text \<open>
  The coroutine up to its first suspension. \<open>None\<close>: it waits in
  \<^verbatim>\<open>semaphore.acquire()\<close>, no permit being free. \<open>Some (Some r, w)\<close>: it has returned
  \<open>r\<close> (the permit is given back on the way out of \<^verbatim>\<open>async with\<close>).
  \<open>Some (None, w)\<close>: it has issued the remote call and holds its permit.
  \<^verbatim>\<open>markdown_file.exists()\<close>, which stands outside \<^verbatim>\<open>try\<close>, is taken not to raise.
\<close>

definition process_file_begin :: "Path \<Rightarrow> args \<Rightarrow> world \<Rightarrow> (result option \<times> world) option" where
  "process_file_begin file_path a w =
     (if permits w = 0 then None
      else
        let w1 = w\<lparr>permits := permits w - 1\<rparr>;
            markdown_file = markdown_file_of file_path a
        in if path_exists (fs w1) markdown_file
           then Some (Some (True, name file_path, ''Skipped (exists)''),
                      w1\<lparr>pbar_n := pbar_n w1 + 1, permits := permits w1 + 1\<rparr>)
           else Some (None, w1\<lparr>remote_calls := remote_calls w1 @ [str file_path]\<rparr>))"

text \<open>
  The body of \<^verbatim>\<open>try\<close> from the answer of the remote service on: the text of the
  exception raised, if any, and the file system reached.
\<close>

definition try_body :: "host \<Rightarrow> Path \<Rightarrow> args \<Rightarrow> response \<Rightarrow> filesystem \<Rightarrow> string option \<times> filesystem" where
  "try_body h file_path a resp f =
     (let markdown_file = markdown_file_of file_path a in
      case resp of
        Raises e \<Rightarrow> (Some e, f)
      | Returns None \<Rightarrow> (Some ''No markdown content returned from Datalab API'', f)
      | Returns (Some markdown_content) \<Rightarrow>
          if markdown_content = []
          then (Some ''No markdown content returned from Datalab API'', f)
          else (case mkdir h (Mkdir (parent markdown_file)) (parent markdown_file) f of
                  Inl e \<Rightarrow> (Some e, f)
                | Inr f1 \<Rightarrow>
                    (case write_text h markdown_file markdown_content f1 of
                       Inl e \<Rightarrow> (Some e, f1)
                     | Inr f2 \<Rightarrow> (None, f2))))"

text \<open>The coroutine from the answer of the remote service to its return.\<close>

definition process_file_resume :: "host \<Rightarrow> Path \<Rightarrow> args \<Rightarrow> response \<Rightarrow> world \<Rightarrow> result \<times> world" where
  "process_file_resume h file_path a resp w =
     (case try_body h file_path a resp (fs w) of
        (None, f') \<Rightarrow>
          ((True, name file_path, ''Converted''),
           w\<lparr>fs := f', pbar_n := pbar_n w + 1, permits := permits w + 1\<rparr>)
      | (Some e, f') \<Rightarrow>
          ((False, name file_path, take 200 e),
           w\<lparr>fs := f', pbar_n := pbar_n w + 1, permits := permits w + 1\<rparr>))"

text \<open>The coroutine run alone, from call to return.\<close>

definition process_file :: "host \<Rightarrow> Path \<Rightarrow> args \<Rightarrow> world \<Rightarrow> (result \<times> world) option" where
  "process_file h file_path a w =
     (case process_file_begin file_path a w of
        None \<Rightarrow> None
      | Some (Some r, w') \<Rightarrow> Some (r, w')
      | Some (None, w') \<Rightarrow>
          Some (process_file_resume h file_path a (convert h (str file_path)) w'))"

section \<open>The batch\<close>

text \<open>
  \<^verbatim>\<open>asyncio.gather\<close> over one task per file. An event that cannot happen leaves the
  state as it is: a task that finds no free permit stays where it is, and there is no
  answer for a task that awaits none.
\<close>

definition step :: "host \<Rightarrow> args \<Rightarrow> Path list \<Rightarrow> event \<Rightarrow> world \<times> task list \<Rightarrow> world \<times> task list" where
  "step h a files ev s =
     (case s of (w, ts) \<Rightarrow>
      (case ev of
         Start i \<Rightarrow>
           if i < length ts \<and> ts ! i = Pending
           then (case process_file_begin (files ! i) a w of
                   None \<Rightarrow> s
                 | Some (None, w') \<Rightarrow> (w', ts[i := Awaiting])
                 | Some (Some r, w') \<Rightarrow> (w', ts[i := Done r]))
           else s
       | Reply i \<Rightarrow>
           if i < length ts \<and> ts ! i = Awaiting
           then (case process_file_resume h (files ! i) a (convert h (str (files ! i))) w of
                   (r, w') \<Rightarrow> (w', ts[i := Done r]))
           else s))"

definition exec :: "host \<Rightarrow> args \<Rightarrow> Path list \<Rightarrow> event list \<Rightarrow> world \<times> task list \<Rightarrow> world \<times> task list" where
  "exec h a files evs s = fold (step h a files) evs s"

fun is_Done :: "task \<Rightarrow> bool" where
  "is_Done (Done r) = True"
| "is_Done t = False"

fun results_of :: "task list \<Rightarrow> result list" where
  "results_of [] = []"
| "results_of (Done r # ts) = r # results_of ts"
| "results_of (t # ts) = results_of ts"

text \<open>The number of tasks suspended in the remote call.\<close>

definition awaiting :: "task list \<Rightarrow> nat" where
  "awaiting ts = length (filter (\<lambda>t. t = Awaiting) ts)"

text \<open>
  \<^verbatim>\<open>await asyncio.gather(*tasks)\<close> returns the results in the order of the files once
  every task has returned; under a schedule that leaves a task unfinished it never does.
\<close>

definition gather :: "host \<Rightarrow> args \<Rightarrow> Path list \<Rightarrow> world \<Rightarrow> (result list \<times> world) option" where
  "gather h a files w =
     (case exec h a files (schedule h) (w, replicate (length files) Pending) of
        (w', ts) \<Rightarrow> if list_all is_Done ts then Some (results_of ts, w') else None)"

section \<open>File discovery\<close>

text \<open>\<^verbatim>\<open>str.upper\<close> and \<^verbatim>\<open>str.lower\<close> on ASCII letters.\<close>

definition upper_char :: "char \<Rightarrow> char" where
  "upper_char c =
     (let n = (of_char c :: nat) in if 97 \<le> n \<and> n \<le> 122 then char_of (n - 32) else c)"

definition lower_char :: "char \<Rightarrow> char" where
  "lower_char c =
     (let n = (of_char c :: nat) in if 65 \<le> n \<and> n \<le> 90 then char_of (n + 32) else c)"

definition upper :: "string \<Rightarrow> string" where
  "upper s = map upper_char s"

definition lower :: "string \<Rightarrow> string" where
  "lower s = map lower_char s"

text \<open>
  \<^verbatim>\<open>fnmatch\<close> of a name against a pattern, for patterns made of \<^verbatim>\<open>*\<close> and literal
  characters (the script builds no others). On POSIX the match is case sensitive.
\<close>

fun fnmatch :: "string \<Rightarrow> string \<Rightarrow> bool" where
  "fnmatch [] [] = True"
| "fnmatch (c # cs) [] = False"
| "fnmatch [] (p # ps) = (p = CHR ''*'' \<and> fnmatch [] ps)"
| "fnmatch (c # cs) (p # ps) =
     (if p = CHR ''*'' then fnmatch (c # cs) ps \<or> fnmatch cs (p # ps)
      else c = p \<and> fnmatch cs ps)"

text \<open>
  \<^verbatim>\<open>dir.glob(pattern)\<close> for a pattern without separator: the entries of the directory
  itself whose name matches, hidden ones included.
\<close>

definition glob :: "host \<Rightarrow> Path \<Rightarrow> string \<Rightarrow> Path list" where
  "glob h dir pattern = map (truediv dir) (filter (\<lambda>n. fnmatch n pattern) (scandir h dir))"

definition extensions :: "string \<Rightarrow> string list" where
  "extensions fmt =
     (if fmt = ''all'' then [''.pdf'', ''.epub'', ''.html'', ''.htm'']
      else if fmt = ''epub'' then [''.epub'']
      else if fmt = ''html'' then [''.html'', ''.htm'']
      else [''.pdf''])"

text \<open>\<^verbatim>\<open>list(set(xs))\<close>: the distinct elements, in the order the host's hashing gives.\<close>

definition list_of_set :: "host \<Rightarrow> Path list \<Rightarrow> Path list" where
  "list_of_set h xs = sort_key (hash_rank h) (remdups xs)"

definition files_to_convert :: "host \<Rightarrow> args \<Rightarrow> Path list" where
  "files_to_convert h a =
     (let input_path = Path_of (arg_input a) in
      list_of_set h
        (concat (map (\<lambda>ext. glob h input_path (''*'' @ ext) @ glob h input_path (''*'' @ upper ext))
                     (extensions (arg_format a)))))"

section \<open>Summary and main\<close>

record summary =
  n_successful :: nat
  n_failed :: nat
  n_total :: nat
  shown :: "(string \<times> string) list"
  n_more :: "nat option"

definition successful_of :: "result list \<Rightarrow> string list" where
  "successful_of results = map (\<lambda>r. fst (snd r)) (filter (\<lambda>r. fst r) results)"

definition failed_of :: "result list \<Rightarrow> (string \<times> string) list" where
  "failed_of results = map (\<lambda>r. snd r) (filter (\<lambda>r. \<not> fst r) results)"

text \<open>What lines 190 to 207 print: the three counts, at most ten failures, and the rest as a number.\<close>

definition summarise :: "result list \<Rightarrow> nat \<Rightarrow> summary" where
  "summarise results n =
     (let successful = successful_of results; failed = failed_of results in
      \<lparr>n_successful = length successful,
       n_failed = length failed,
       n_total = n,
       shown = map (\<lambda>(filename, error). (take 60 filename, take 100 error)) (take 10 failed),
       n_more = (if length failed > 10 then Some (length failed - 10) else None)\<rparr>)"

text \<open>\<^verbatim>\<open>a or b\<close> on values that are \<^verbatim>\<open>None\<close> or a string: \<^verbatim>\<open>None\<close> and the empty string are falsy.\<close>

definition py_or :: "string option \<Rightarrow> string option \<Rightarrow> string option" where
  "py_or x y = (case x of None \<Rightarrow> y | Some s \<Rightarrow> if s = [] then y else x)"

text \<open>Line 122: the primary variable, or else the legacy one.\<close>

definition api_key_of :: "host \<Rightarrow> string option" where
  "api_key_of h = py_or (getenv h ''DATALAB_API_KEY'') (getenv h ''MARKER_PDF_KEY'')"

text \<open>The condition of line 124.\<close>

definition key_rejected :: "string option \<Rightarrow> bool" where
  "key_rejected api_key =
     (case api_key of
        None \<Rightarrow> True
      | Some k \<Rightarrow> k = [] \<or> k \<in> set [''your_api_key_here'', []])"

text \<open>
  How a run of the script ends: by \<^verbatim>\<open>sys.exit\<close> (of \<^verbatim>\<open>argparse\<close> or of line 132), by
  an exception nothing catches, by the early return when no file is found, by the return
  after the summary (with the results gathered and the final state), or not at all.
\<close>

datatype outcome =
    Sys_exit nat
  | Unhandled string
  | No_files filesystem
  | Completed "result list" summary world
  | Never_returns

text \<open>The state the batch starts in: line 174 creates the semaphore with ten permits.\<close>

definition initial_world :: "filesystem \<Rightarrow> world" where
  "initial_world f = \<lparr>fs = f, remote_calls = [], pbar_n = 0, permits = 10\<rparr>"

definition main :: "cmdline \<Rightarrow> host \<Rightarrow> filesystem \<Rightarrow> outcome" where
  "main cl h f0 =
     (case parse_args cl of
        Inl status \<Rightarrow> Sys_exit status
      | Inr a \<Rightarrow>
          let api_key = api_key_of h in
          if key_rejected api_key then Sys_exit 1
          else
            (case mkdir h (Makedirs (arg_output a)) (Path_of (arg_output a)) f0 of
               Inl e \<Rightarrow> Unhandled e
             | Inr f1 \<Rightarrow>
                 let files = files_to_convert h a in
                 if files = [] then No_files f1
                 else
                   (case gather h a files (initial_world f1) of
                      None \<Rightarrow> Never_returns
                    | Some (results, w) \<Rightarrow>
                        Completed results (summarise results (length files)) w)))"


section \<open>The words of the specification, invariants and examples\<close>

text \<open>
  The default output directory as the specification words it: the sibling of the input
  directory, named by appending \<^verbatim>\<open>_Markdown\<close> to the input directory's name. It has
  the root and the leading components of the input path, and the last component with
  the suffix.
\<close>

definition sibling_markdown :: "string \<Rightarrow> string" where
  "sibling_markdown inp =
     (let p = Path_of inp in str (Path (root p) (butlast (parts p) @ [last (parts p) @ ''_Markdown''])))"

text \<open>The tuple a task returns after the body of \<^verbatim>\<open>try\<close>, by the exception it raised, if any.\<close>

definition resume_result :: "Path \<Rightarrow> string option \<Rightarrow> result" where
  "resume_result file_path e =
     (case e of None \<Rightarrow> (True, name file_path, ''Converted'')
              | Some m \<Rightarrow> (False, name file_path, take 200 m))"

text \<open>The invariant of the semaphore: a permit is either free or held by a task that awaits the remote service.\<close>

definition gate_inv :: "world \<times> task list \<Rightarrow> bool" where
  "gate_inv s = (permits (fst s) + awaiting (snd s) = 10)"




text \<open>
  Discovery as the specification words it: the entries whose extension matches one of
  the list without regard to case.
\<close>

definition ext_matches_ci :: "string list \<Rightarrow> string \<Rightarrow> bool" where
  "ext_matches_ci exts n = list_ex (\<lambda>e. suffix e (lower n)) exts"

definition spec_discovery :: "host \<Rightarrow> args \<Rightarrow> Path set" where
  "spec_discovery h a =
     (let input_path = Path_of (arg_input a) in
      truediv input_path `
        set (filter (ext_matches_ci (extensions (arg_format a))) (scandir h input_path)))"

text \<open>
  What the two globs of lines 160 and 161 accept: a name that ends with an extension of
  the list as it is written there, or with its upper-case form.
\<close>

definition name_matches :: "string list \<Rightarrow> string \<Rightarrow> bool" where
  "name_matches exts n = list_ex (\<lambda>e. suffix e n \<or> suffix (upper e) n) exts"

text \<open>
  A host for examples: a key that looks like a placeholder but is none, an input
  directory with four entries, a service that converts \<^verbatim>\<open>a.pdf\<close>, returns no markdown
  for \<^verbatim>\<open>B.PDF\<close> and raises for everything else, an operating system that refuses
  nothing, and a schedule that starts three tasks before the first answer arrives.
\<close>

definition quiet_host :: host where
  "quiet_host =
     \<lparr>getenv = (\<lambda>k. if k = ''DATALAB_API_KEY'' then Some ''your_actual_api_key_here'' else None),
      scandir = (\<lambda>d. [''a.pdf'', ''B.PDF'', ''c.epub'', ''d.txt'']),
      hash_rank = (\<lambda>p. length (name p)),
      convert = (\<lambda>s. if s = ''in/a.pdf'' then Returns (Some ''# a'')
                       else if s = ''in/B.PDF'' then Returns None
                       else Raises ''boom''),
      os_denies = (\<lambda>c. False),
      os_text = (\<lambda>c. ''[Errno 13] Permission denied''),
      schedule = [Start 0, Start 1, Start 2, Reply 1, Reply 0, Reply 2]\<rparr>"

text \<open>The command line \<^verbatim>\<open>-i in -f all\<close> and what \<^verbatim>\<open>parse_args\<close> makes of it.\<close>

definition all_from_in :: cmdline where
  "all_from_in = \<lparr>opt_input = Some ''in'', opt_output = None, opt_format = Some ''all''\<rparr>"

definition all_from_in_args :: args where
  "all_from_in_args = \<lparr>arg_input = ''in'', arg_output = ''in_Markdown'', arg_format = ''all''\<rparr>"

text \<open>The same host with a single entry, whose extension is in mixed case, and a run for pdf.\<close>

definition mixed_case_host :: host where
  "mixed_case_host = quiet_host\<lparr>scandir := (\<lambda>d. [''x.Pdf''])\<rparr>"

definition pdf_from_in_args :: args where
  "pdf_from_in_args = \<lparr>arg_input = ''in'', arg_output = ''in_Markdown'', arg_format = ''pdf''\<rparr>"








section \<open>Properties of the model\<close>

subsection \<open>Paths and the default output directory\<close>

lemma split_sep_nonempty: "split_sep s \<noteq> []"
  by (induction s) auto

lemma split_sep_no_sep: "x \<in> set (split_sep s) \<Longrightarrow> CHR ''/'' \<notin> set x"
proof (induction s arbitrary: x)
  case Nil
  then show ?case by simp
next
  case (Cons c cs)
  obtain y ys where ys: "split_sep cs = y # ys"
    using split_sep_nonempty [of cs] by (cases "split_sep cs") auto
  show ?case
  proof (cases "c = CHR ''/''")
    case True
    with Cons show ?thesis by auto
  next
    case False
    with Cons.prems ys have "x = c # y \<or> x \<in> set ys" by auto
    then show ?thesis
      using Cons.IH [of y] Cons.IH [of x] ys False by auto
  qed
qed

lemma split_sep_single: "CHR ''/'' \<notin> set x \<Longrightarrow> split_sep x = [x]"
  by (induction x) auto

lemma parts_Path_of_no_sep: "x \<in> set (parts (Path_of s)) \<Longrightarrow> CHR ''/'' \<notin> set x"
  by (auto simp: Path_of_def parse_parts_def split: if_splits prod.splits dest: split_sep_no_sep)

lemma parse_parts_component:
  assumes "CHR ''/'' \<notin> set x" "x \<noteq> []" "x \<noteq> ''.''"
  shows "parse_parts x = [x]"
  using assms by (simp add: parse_parts_def split_sep_single)

lemma default_output_named:
  assumes "name (Path_of inp) \<noteq> []"
  shows "default_output inp = sibling_markdown inp"
proof -
  let ?p = "Path_of inp"
  let ?n = "name ?p @ ''_Markdown''"
  from assms have ne: "parts ?p \<noteq> []" and nm: "name ?p = last (parts ?p)"
    by (auto simp: name_def split: if_splits)
  then have "last (parts ?p) \<in> set (parts ?p)" by simp
  then have "CHR ''/'' \<notin> set (name ?p)"
    using parts_Path_of_no_sep nm by metis
  then have "CHR ''/'' \<notin> set ?n" by simp
  moreover have "?n \<noteq> []" "?n \<noteq> ''.''" by (auto simp: append_eq_Cons_conv)
  ultimately have pp: "parse_parts ?n = [?n]" by (rule parse_parts_component)
  have "take 1 ?n \<noteq> ''/''"
    using \<open>CHR ''/'' \<notin> set ?n\<close> by (cases "name ?p") auto
  then have "truediv (parent ?p) ?n = Path (root ?p) (butlast (parts ?p) @ [?n])"
    using ne pp by (simp add: truediv_def parent_def)
  then show ?thesis
    using assms nm by (simp add: default_output_def sibling_markdown_def Let_def)
qed

lemma default_output_unnamed:
  assumes "name (Path_of inp) = []"
  shows "default_output inp = str (Path (root (Path_of inp)) [''Markdown''])"
proof -
  have "parts (Path_of inp) = []"
  proof (rule ccontr)
    assume ne: "parts (Path_of inp) \<noteq> []"
    then have "last (parts (Path_of inp)) \<in> set (parts (Path_of inp))" by simp
    moreover have "last (parts (Path_of inp)) = []" using assms ne by (simp add: name_def)
    ultimately show False
      by (auto simp: Path_of_def parse_parts_def split: if_splits prod.splits)
  qed
  moreover have "parse_parts ''Markdown'' = [''Markdown'']" by (simp add: parse_parts_def)
  ultimately show ?thesis using assms
    by (simp add: default_output_def truediv_def Let_def)
qed

subsection \<open>The key check and the empty answer\<close>

lemma key_rejected_iff:
  "key_rejected k \<longleftrightarrow> k = None \<or> k = Some [] \<or> k = Some ''your_api_key_here''"
  by (cases k) (auto simp: key_rejected_def)

lemma try_body_empty:
  "m = None \<or> m = Some [] \<Longrightarrow>
   try_body h file_path a (Returns m) f = (Some ''No markdown content returned from Datalab API'', f)"
  by (auto simp: try_body_def)

subsection \<open>The steps of the event loop\<close>

lemma process_file_resume_eq:
  "try_body h file_path a resp (fs w) = (e, f') \<Longrightarrow>
   process_file_resume h file_path a resp w =
     (resume_result file_path e, w\<lparr>fs := f', pbar_n := pbar_n w + 1, permits := permits w + 1\<rparr>)"
  by (cases e) (simp_all add: process_file_resume_def resume_result_def)

lemma step_cases [consumes 1, case_names Idle Skip Call Answer]:
  assumes "step h a files ev (w, ts) = (w', ts')"
  obtains "w' = w" "ts' = ts"
  | i where "ev = Start i" "i < length ts" "ts ! i = Pending" "0 < permits w"
      "path_exists (fs w) (markdown_file_of (files ! i) a)"
      "w' = w\<lparr>pbar_n := pbar_n w + 1\<rparr>"
      "ts' = ts[i := Done (True, name (files ! i), ''Skipped (exists)'')]"
  | i where "ev = Start i" "i < length ts" "ts ! i = Pending" "0 < permits w"
      "\<not> path_exists (fs w) (markdown_file_of (files ! i) a)"
      "w' = w\<lparr>permits := permits w - 1, remote_calls := remote_calls w @ [str (files ! i)]\<rparr>"
      "ts' = ts[i := Awaiting]"
  | i e f' where "ev = Reply i" "i < length ts" "ts ! i = Awaiting"
      "try_body h (files ! i) a (convert h (str (files ! i))) (fs w) = (e, f')"
      "w' = w\<lparr>fs := f', pbar_n := pbar_n w + 1, permits := permits w + 1\<rparr>"
      "ts' = ts[i := Done (resume_result (files ! i) e)]"
proof (cases ev)
  case (Start i)
  show ?thesis
  proof (cases "i < length ts \<and> ts ! i = Pending \<and> 0 < permits w")
    case False
    with assms Start have "w' = w" "ts' = ts"
      by (auto simp: step_def process_file_begin_def split: if_splits)
    then show ?thesis by (rule that(1))
  next
    case True
    show ?thesis
    proof (cases "path_exists (fs w) (markdown_file_of (files ! i) a)")
      case ex: True
      with assms Start True
      have "w' = w\<lparr>pbar_n := pbar_n w + 1\<rparr>"
        "ts' = ts[i := Done (True, name (files ! i), ''Skipped (exists)'')]"
        by (auto simp: step_def process_file_begin_def Let_def)
      with Start True ex show ?thesis by (intro that(2)) auto
    next
      case nex: False
      with assms Start True
      have "w' = w\<lparr>permits := permits w - 1, remote_calls := remote_calls w @ [str (files ! i)]\<rparr>"
        "ts' = ts[i := Awaiting]"
        by (auto simp: step_def process_file_begin_def Let_def)
      with Start True nex show ?thesis by (intro that(3)) auto
    qed
  qed
next
  case (Reply i)
  show ?thesis
  proof (cases "i < length ts \<and> ts ! i = Awaiting")
    case False
    with assms Reply have "w' = w" "ts' = ts"
      by (auto simp: step_def split: if_splits)
    then show ?thesis by (rule that(1))
  next
    case True
    obtain e f' where tb: "try_body h (files ! i) a (convert h (str (files ! i))) (fs w) = (e, f')"
      by (cases "try_body h (files ! i) a (convert h (str (files ! i))) (fs w)")
    from assms Reply True process_file_resume_eq [OF tb]
    have "w' = w\<lparr>fs := f', pbar_n := pbar_n w + 1, permits := permits w + 1\<rparr>"
      "ts' = ts[i := Done (resume_result (files ! i) e)]"
      by (auto simp: step_def)
    with Reply True tb show ?thesis by (intro that(4)) auto
  qed
qed

lemma exec_invariant:
  assumes "P s" and "\<And>ev s. P s \<Longrightarrow> P (step h a files ev s)"
  shows "P (exec h a files evs s)"
  using assms(1) unfolding exec_def
proof (induction evs arbitrary: s)
  case Nil
  then show ?case by simp
next
  case (Cons ev evs)
  from Cons.prems have "P (step h a files ev s)" by (rule assms(2))
  then have "P (fold (step h a files) evs (step h a files ev s))" by (rule Cons.IH)
  then show ?case by simp
qed

lemma awaiting_update:
  "i < length ts \<Longrightarrow>
   awaiting (ts[i := t]) + (if ts ! i = Awaiting then 1 else 0)
     = awaiting ts + (if t = Awaiting then 1 else 0)"
  unfolding awaiting_def
proof (induction ts arbitrary: i)
  case Nil
  then show ?case by simp
next
  case (Cons x xs)
  show ?case
  proof (cases i)
    case 0
    then show ?thesis by auto
  next
    case (Suc j)
    with Cons.prems have "j < length xs" by simp
    from Cons.IH [OF this] Suc show ?thesis by auto
  qed
qed

lemma gate_inv_step: "gate_inv s \<Longrightarrow> gate_inv (step h a files ev s)"
proof -
  assume inv: "gate_inv s"
  obtain w ts where s: "s = (w, ts)" by (cases s)
  obtain w' ts' where s': "step h a files ev (w, ts) = (w', ts')"
    by (cases "step h a files ev (w, ts)")
  from s' have "permits w' + awaiting ts' = permits w + awaiting ts"
  proof (cases rule: step_cases)
    case Idle
    then show ?thesis by simp
  next
    case (Skip i)
    with awaiting_update [of i ts "Done (True, name (files ! i), ''Skipped (exists)'')"]
    show ?thesis by simp
  next
    case (Call i)
    with awaiting_update [of i ts Awaiting] show ?thesis by simp
  next
    case (Answer i e f')
    with awaiting_update [of i ts "Done (resume_result (files ! i) e)"] show ?thesis by simp
  qed
  with inv s s' show ?thesis by (simp add: gate_inv_def)
qed

lemma awaiting_replicate_Pending: "awaiting (replicate n Pending) = 0"
  by (simp add: awaiting_def)

subsection \<open>The file system only grows\<close>

lemma add_dir_keeps: "f q = Some v \<Longrightarrow> add_dir p f q = Some v"
  by (auto simp: add_dir_def)

lemma fold_add_dir_keeps: "f q = Some v \<Longrightarrow> fold add_dir ps f q = Some v"
  by (induction ps arbitrary: f) (auto simp: add_dir_keeps)

lemma mkdir_keeps: "mkdir h c p f = Inr f' \<Longrightarrow> f q = Some v \<Longrightarrow> f' q = Some v"
  by (auto simp: mkdir_def fold_add_dir_keeps split: if_splits)

lemma mkdir_exists: "mkdir h c p f = Inr f' \<Longrightarrow> path_exists f q \<Longrightarrow> path_exists f' q"
  unfolding path_exists_def using mkdir_keeps [of h c p f f' q] by auto

lemma write_text_exists:
  "write_text h p c f = Inr f' \<Longrightarrow> path_exists f q \<Longrightarrow> path_exists f' q"
  by (auto simp: write_text_def path_exists_def split: if_splits)


lemma try_body_exists:
  assumes "try_body h file_path a resp f = (e, f')" and "path_exists f q"
  shows "path_exists f' q"
  using assms
  by (auto simp: try_body_def Let_def split: response.splits option.splits if_splits sum.splits
      dest: mkdir_exists write_text_exists)


lemma step_exists:
  assumes "step h a files ev (w, ts) = (w', ts')" and "path_exists (fs w) q"
  shows "path_exists (fs w') q"
  using assms(1)
proof (cases rule: step_cases)
  case (Answer i e f')
  with assms(2) try_body_exists show ?thesis by auto
qed (use assms(2) in auto)

lemma exec_exists:
  assumes "path_exists (fs w) q"
  shows "path_exists (fs (fst (exec h a files evs (w, ts)))) q"
proof (rule exec_invariant [where P = "\<lambda>s. path_exists (fs (fst s)) q"])
  show "path_exists (fs (fst (w, ts))) q" using assms by simp
next
  fix ev and s :: "world \<times> task list"
  assume "path_exists (fs (fst s)) q"
  then show "path_exists (fs (fst (step h a files ev s))) q"
    using step_exists [of h a files ev "fst s" "snd s" "fst (step h a files ev s)"
        "snd (step h a files ev s)" q]
    by simp
qed









subsection \<open>File discovery\<close>

lemma fnmatch_literal: "CHR ''*'' \<notin> set pat \<Longrightarrow> fnmatch n pat \<longleftrightarrow> n = pat"
  by (induction n pat rule: fnmatch.induct) auto

lemma fnmatch_star_literal:
  "CHR ''*'' \<notin> set lit \<Longrightarrow> fnmatch n (CHR ''*'' # lit) \<longleftrightarrow> suffix lit n"
proof (induction n)
  case Nil
  then show ?case by (auto simp: fnmatch_literal)
next
  case (Cons c cs)
  then show ?case by (auto simp: fnmatch_literal suffix_Cons)
qed

lemma glob_star:
  "CHR ''*'' \<notin> set ext \<Longrightarrow>
   glob h dir (CHR ''*'' # ext) = map (truediv dir) (filter (suffix ext) (scandir h dir))"
  by (simp add: glob_def fnmatch_star_literal)

lemma upper_extensions:
  "upper ''.pdf'' = ''.PDF''" "upper ''.epub'' = ''.EPUB''"
  "upper ''.html'' = ''.HTML''" "upper ''.htm'' = ''.HTM''"
  by code_simp+

lemma extensions_cases:
  "extensions fmt = [''.pdf'', ''.epub'', ''.html'', ''.htm''] \<or> extensions fmt = [''.epub'']
   \<or> extensions fmt = [''.html'', ''.htm''] \<or> extensions fmt = [''.pdf'']"
  by (simp add: extensions_def)

lemma extensions_no_star:
  "e \<in> set (extensions fmt) \<Longrightarrow> CHR ''*'' \<notin> set e \<and> CHR ''*'' \<notin> set (upper e)"
  using extensions_cases [of fmt] by (auto simp: upper_extensions)

lemma set_list_of_set: "set (list_of_set h xs) = set xs"
  by (simp add: list_of_set_def)

lemma distinct_list_of_set: "distinct (list_of_set h xs)"
  by (simp add: list_of_set_def)

lemma set_files_to_convert:
  "set (files_to_convert h a) =
     truediv (Path_of (arg_input a)) `
       set (filter (name_matches (extensions (arg_format a))) (scandir h (Path_of (arg_input a))))"
proof -
  let ?d = "Path_of (arg_input a)"
  let ?exts = "extensions (arg_format a)"
  have "set (files_to_convert h a) =
      (\<Union>e\<in>set ?exts. set (glob h ?d (''*'' @ e)) \<union> set (glob h ?d (''*'' @ upper e)))"
    by (simp add: files_to_convert_def Let_def set_list_of_set)
  also have "\<dots> = (\<Union>e\<in>set ?exts. truediv ?d ` {n \<in> set (scandir h ?d). suffix e n \<or> suffix (upper e) n})"
  proof -
    have "set (glob h ?d (''*'' @ e)) \<union> set (glob h ?d (''*'' @ upper e))
          = truediv ?d ` {n \<in> set (scandir h ?d). suffix e n \<or> suffix (upper e) n}"
      if "e \<in> set ?exts" for e
    proof -
      from that extensions_no_star [of e "arg_format a"]
      have "CHR ''*'' \<notin> set e" "CHR ''*'' \<notin> set (upper e)" by simp_all
      then have "glob h ?d (''*'' @ e) = map (truediv ?d) (filter (suffix e) (scandir h ?d))"
        "glob h ?d (''*'' @ upper e) = map (truediv ?d) (filter (suffix (upper e)) (scandir h ?d))"
        by (simp_all add: glob_star)
      then show ?thesis by auto
    qed
    then show ?thesis by simp
  qed
  also have "\<dots> = truediv ?d ` set (filter (name_matches ?exts) (scandir h ?d))"
    by (auto simp: name_matches_def list_ex_iff)
  finally show ?thesis .
qed

subsection \<open>The examples, evaluated\<close>

lemma parse_all_from_in: "parse_args all_from_in = Inr all_from_in_args"
  by (simp add: all_from_in_def all_from_in_args_def parse_args_def default_output_def Path_of_def
      splitroot_def parse_parts_def name_def parent_def truediv_def str_def)

lemma quiet_files:
  "files_to_convert quiet_host all_from_in_args
     = [Path [] [''in'', ''a.pdf''], Path [] [''in'', ''B.PDF''], Path [] [''in'', ''c.epub'']]"
  by code_simp

lemma quiet_paths:
  "markdown_file_of (Path [] [''in'', ''a.pdf'']) all_from_in_args = Path [] [''in_Markdown'', ''a.md'']"
  "markdown_file_of (Path [] [''in'', ''B.PDF'']) all_from_in_args = Path [] [''in_Markdown'', ''B.md'']"
  "markdown_file_of (Path [] [''in'', ''c.epub'']) all_from_in_args = Path [] [''in_Markdown'', ''c.md'']"
  "str (Path [] [''in'', ''a.pdf'']) = ''in/a.pdf''"
  "str (Path [] [''in'', ''B.PDF'']) = ''in/B.PDF''"
  "str (Path [] [''in'', ''c.epub'']) = ''in/c.epub''"
  "name (Path [] [''in'', ''a.pdf'']) = ''a.pdf''"
  "name (Path [] [''in'', ''B.PDF'']) = ''B.PDF''"
  "name (Path [] [''in'', ''c.epub'']) = ''c.epub''"
  "Path_of (arg_output all_from_in_args) = Path [] [''in_Markdown'']"
  "parent (Path [] [''in_Markdown'', ''a.md'']) = Path [] [''in_Markdown'']"
  "parent (Path [] [''in_Markdown'', ''B.md'']) = Path [] [''in_Markdown'']"
  "parent (Path [] [''in_Markdown'', ''c.md'']) = Path [] [''in_Markdown'']"
  "dir_chain (Path [] [''in_Markdown'']) = [Path [] [''in_Markdown'']]"
  by code_simp+



lemma quiet_convert:
  "convert quiet_host ''in/a.pdf'' = Returns (Some ''# a'')"
  "convert quiet_host ''in/B.PDF'' = Returns None"
  "convert quiet_host ''in/c.epub'' = Raises ''boom''"
  "schedule quiet_host = [Start 0, Start 1, Start 2, Reply 1, Reply 0, Reply 2]"
  "os_denies quiet_host c = False"
  by (simp_all add: quiet_host_def)




lemma mixed_case_files: "files_to_convert mixed_case_host pdf_from_in_args = []"
  by code_simp

lemma lower_mixed: "lower ''x.Pdf'' = ''x.pdf''"
  by code_simp

lemma mixed_case_spec:
  "spec_discovery mixed_case_host pdf_from_in_args = {Path [] [''in'', ''x.Pdf'']}"
proof -
  have "Path_of (arg_input pdf_from_in_args) = Path [] [''in'']"
    "truediv (Path [] [''in'']) ''x.Pdf'' = Path [] [''in'', ''x.Pdf'']"
    by code_simp+
  moreover have "extensions (arg_format pdf_from_in_args) = [''.pdf'']"
    by (simp add: pdf_from_in_args_def extensions_def)
  moreover have "suffix ''.pdf'' ''x.pdf''"
    by (simp add: suffix_def)
  ultimately show ?thesis
    by (simp add: spec_discovery_def ext_matches_ci_def mixed_case_host_def lower_mixed)
qed








subsection \<open>Completed batches\<close>





subsection \<open>Running the tasks one after the other\<close>










subsection \<open>Running the batch again\<close>





section \<open>The claims\<close>

text \<open>
  C1. A job that finds its output file (the stem of the input file with \<^verbatim>\<open>.md\<close>, in the
  output directory) when it has its permit returns the success tuple marked
  \<^verbatim>\<open>Skipped (exists)\<close>. The world it leaves differs from the one it found in the count of
  the progress bar only: the list of remote calls and the file system are the same, so
  the remote client is not called and the existing file is neither replaced nor changed.
  The same holds for a task started inside a batch; and since no event of a batch
  removes a file, an output that exists at some moment is still there whenever the task
  is started later.
\<close>

theorem skip_existing:
  assumes "0 < permits w"
    and "path_exists (fs w) (markdown_file_of file_path a)"
  shows "process_file h file_path a w =
           Some ((True, name file_path, ''Skipped (exists)''), w\<lparr>pbar_n := pbar_n w + 1\<rparr>)
       \<and> (i < length ts \<and> ts ! i = Pending \<and> files ! i = file_path \<longrightarrow>
            step h a files (Start i) (w, ts) =
              (w\<lparr>pbar_n := pbar_n w + 1\<rparr>,
               ts[i := Done (True, name file_path, ''Skipped (exists)'')]))
       \<and> path_exists (fs (fst (exec h a files evs (w, ts)))) (markdown_file_of file_path a)"
  using assms exec_exists [OF assms(2), of h a files evs ts]
  by (auto simp: process_file_def process_file_begin_def step_def Let_def)

theorem skip_existing_witness:
  "0 < permits (initial_world [Path [] [''in_Markdown'', ''a.md''] \<mapsto> File ''old''])
   \<and> path_exists (fs (initial_world [Path [] [''in_Markdown'', ''a.md''] \<mapsto> File ''old'']))
         (markdown_file_of (Path [] [''in'', ''a.pdf'']) all_from_in_args)
   \<and> process_file quiet_host (Path [] [''in'', ''a.pdf'']) all_from_in_args
         (initial_world [Path [] [''in_Markdown'', ''a.md''] \<mapsto> File ''old''])
       = Some ((True, ''a.pdf'', ''Skipped (exists)''),
               \<lparr>fs = [Path [] [''in_Markdown'', ''a.md''] \<mapsto> File ''old''],
                remote_calls = [], pbar_n = 1, permits = 10\<rparr>)"
proof -
  let ?w = "initial_world [Path [] [''in_Markdown'', ''a.md''] \<mapsto> File ''old'']"
  have p: "0 < permits ?w" by (simp add: initial_world_def)
  have e: "path_exists (fs ?w) (markdown_file_of (Path [] [''in'', ''a.pdf'']) all_from_in_args)"
    by (simp add: initial_world_def quiet_paths path_exists_def)
  from skip_existing [OF p e, of quiet_host 0 "[Pending]" "[Path [] [''in'', ''a.pdf'']]" "[]"] p e
  show ?thesis
    by (simp add: initial_world_def quiet_paths)
qed

text \<open>
  C2, corrected. For every input directory and format, the files discovered are
  exactly the entries of the directory itself whose name ends with one of the format's
  extensions, written in lower case or in upper case throughout (\<^verbatim>\<open>.pdf\<close> or
  \<^verbatim>\<open>.PDF\<close>, not \<^verbatim>\<open>.Pdf\<close>), each path once. The extensions are \<^verbatim>\<open>.pdf\<close> for pdf,
  \<^verbatim>\<open>.epub\<close> for epub, \<^verbatim>\<open>.html\<close> and \<^verbatim>\<open>.htm\<close> for html, and all four for all. With
  format all and the entries \<^verbatim>\<open>a.pdf\<close>, \<^verbatim>\<open>B.PDF\<close>, \<^verbatim>\<open>c.epub\<close>, \<^verbatim>\<open>d.txt\<close>, the
  files discovered are \<^verbatim>\<open>a.pdf\<close>, \<^verbatim>\<open>B.PDF\<close> and \<^verbatim>\<open>c.epub\<close>.
\<close>

theorem discovery_by_extension:
  "set (files_to_convert h a) =
     truediv (Path_of (arg_input a)) `
       set (filter (name_matches (extensions (arg_format a))) (scandir h (Path_of (arg_input a))))
   \<and> distinct (files_to_convert h a)
   \<and> extensions ''pdf'' = [''.pdf''] \<and> extensions ''epub'' = [''.epub'']
   \<and> extensions ''html'' = [''.html'', ''.htm'']
   \<and> extensions ''all'' = [''.pdf'', ''.epub'', ''.html'', ''.htm'']
   \<and> scandir quiet_host (Path_of ''in'') = [''a.pdf'', ''B.PDF'', ''c.epub'', ''d.txt'']
   \<and> set (files_to_convert quiet_host all_from_in_args) =
       {Path [] [''in'', ''a.pdf''], Path [] [''in'', ''B.PDF''], Path [] [''in'', ''c.epub'']}"
proof (intro conjI)
  show "set (files_to_convert h a) =
     truediv (Path_of (arg_input a)) `
       set (filter (name_matches (extensions (arg_format a))) (scandir h (Path_of (arg_input a))))"
    by (rule set_files_to_convert)
  show "distinct (files_to_convert h a)"
    by (simp add: files_to_convert_def Let_def distinct_list_of_set)
  show "set (files_to_convert quiet_host all_from_in_args) =
       {Path [] [''in'', ''a.pdf''], Path [] [''in'', ''B.PDF''], Path [] [''in'', ''c.epub'']}"
    by (simp add: quiet_files)
  show "scandir quiet_host (Path_of ''in'') = [''a.pdf'', ''B.PDF'', ''c.epub'', ''d.txt'']"
    by (simp add: quiet_host_def)
qed (simp_all add: extensions_def)

text \<open>
  Against C2 as it is written: the entry \<^verbatim>\<open>x.Pdf\<close> matches \<^verbatim>\<open>.pdf\<close> without regard to
  case, so the specification's discovery holds it; the script discovers nothing.
\<close>

theorem mixed_case_counterexample:
  "scandir mixed_case_host (Path_of (arg_input pdf_from_in_args)) = [''x.Pdf'']
   \<and> ext_matches_ci (extensions (arg_format pdf_from_in_args)) ''x.Pdf''
   \<and> spec_discovery mixed_case_host pdf_from_in_args = {Path [] [''in'', ''x.Pdf'']}
   \<and> files_to_convert mixed_case_host pdf_from_in_args = []"
proof -
  have "extensions (arg_format pdf_from_in_args) = [''.pdf'']"
    by (simp add: pdf_from_in_args_def extensions_def)
  moreover have "suffix ''.pdf'' ''x.pdf''" by (simp add: suffix_def)
  ultimately have "ext_matches_ci (extensions (arg_format pdf_from_in_args)) ''x.Pdf''"
    by (simp add: ext_matches_ci_def lower_mixed)
  then show ?thesis
    by (simp add: mixed_case_spec mixed_case_files) (simp add: mixed_case_host_def)
qed

text \<open>
  C3. When the remote call returns a result whose markdown is absent (\<^verbatim>\<open>None\<close>) or
  empty, the job returns a failed tuple carrying the text of the \<^verbatim>\<open>RuntimeError\<close> of
  line 100, neither a skip nor a success. The file system is left as it was found, so no
  output file is created; the same holds for a task resumed inside a batch.
\<close>

theorem empty_content_fails:
  assumes "m = None \<or> m = Some []"
  shows "(0 < permits w \<and> \<not> path_exists (fs w) (markdown_file_of file_path a)
            \<and> convert h (str file_path) = Returns m \<longrightarrow>
          process_file h file_path a w =
            Some ((False, name file_path, ''No markdown content returned from Datalab API''),
                  w\<lparr>remote_calls := remote_calls w @ [str file_path], pbar_n := pbar_n w + 1\<rparr>))
       \<and> process_file_resume h file_path a (Returns m) w =
            ((False, name file_path, ''No markdown content returned from Datalab API''),
             w\<lparr>pbar_n := pbar_n w + 1, permits := permits w + 1\<rparr>)"
  using try_body_empty [OF assms, of h file_path a "fs w"]
  by (simp add: process_file_def process_file_begin_def process_file_resume_def Let_def)

theorem empty_content_fails_witness:
  "process_file quiet_host (Path [] [''in'', ''B.PDF'']) all_from_in_args
     (initial_world [Path [] [''in_Markdown''] \<mapsto> Dir])
   = Some ((False, ''B.PDF'', ''No markdown content returned from Datalab API''),
           \<lparr>fs = [Path [] [''in_Markdown''] \<mapsto> Dir],
            remote_calls = [''in/B.PDF''], pbar_n = 1, permits = 10\<rparr>)
   \<and> \<not> path_exists [Path [] [''in_Markdown''] \<mapsto> Dir]
         (markdown_file_of (Path [] [''in'', ''B.PDF'']) all_from_in_args)"
proof -
  let ?w = "initial_world [Path [] [''in_Markdown''] \<mapsto> Dir]"
  let ?p = "Path [] [''in'', ''B.PDF'']"
  have none: "(None :: string option) = None \<or> (None :: string option) = Some []" by simp
  have pre: "0 < permits ?w \<and> \<not> path_exists (fs ?w) (markdown_file_of ?p all_from_in_args)
      \<and> convert quiet_host (str ?p) = Returns None"
    by (simp add: initial_world_def quiet_paths quiet_convert path_exists_def)
  from empty_content_fails [OF none, of ?w ?p all_from_in_args quiet_host] pre show ?thesis
    by (simp add: initial_world_def quiet_paths path_exists_def)
qed



text \<open>
  C5. Whatever events the loop has run since the batch started with its ten permits, at
  most ten tasks are suspended in the remote call, and the free permits together with
  the suspended tasks are ten: a task holds a permit exactly while it awaits the remote
  service, and has given it back once it is done, whether it converted, skipped or
  failed. A task issues its remote call in the step in which it takes its permit; with
  no permit free, a task that is started does not get past the semaphore, and the state,
  with the list of remote calls, stays as it is.
\<close>

theorem at_most_ten_in_flight:
  "awaiting (snd (exec h a files evs (initial_world f, replicate (length files) Pending))) \<le> 10
   \<and> permits (fst (exec h a files evs (initial_world f, replicate (length files) Pending)))
       + awaiting (snd (exec h a files evs (initial_world f, replicate (length files) Pending))) = 10
   \<and> (i < length ts \<and> ts ! i = Pending \<and> 0 < permits w
        \<and> \<not> path_exists (fs w) (markdown_file_of (files ! i) a) \<longrightarrow>
       step h a files (Start i) (w, ts) =
         (w\<lparr>permits := permits w - 1, remote_calls := remote_calls w @ [str (files ! i)]\<rparr>,
          ts[i := Awaiting]))
   \<and> step h a files (Start i) (w\<lparr>permits := 0\<rparr>, ts) = (w\<lparr>permits := 0\<rparr>, ts)"
proof -
  let ?s0 = "(initial_world f, replicate (length files) Pending)"
  have "gate_inv ?s0" by (simp add: gate_inv_def initial_world_def awaiting_replicate_Pending)
  then have "gate_inv (exec h a files evs ?s0)"
    by (rule exec_invariant [where P = gate_inv]) (rule gate_inv_step)
  then have "permits (fst (exec h a files evs ?s0)) + awaiting (snd (exec h a files evs ?s0)) = 10"
    by (simp add: gate_inv_def)
  moreover have "step h a files (Start i) (w\<lparr>permits := 0\<rparr>, ts) = (w\<lparr>permits := 0\<rparr>, ts)"
    by (simp add: step_def process_file_begin_def)
  moreover have "step h a files (Start i) (w, ts) =
         (w\<lparr>permits := permits w - 1, remote_calls := remote_calls w @ [str (files ! i)]\<rparr>,
          ts[i := Awaiting])"
    if "i < length ts \<and> ts ! i = Pending \<and> 0 < permits w
        \<and> \<not> path_exists (fs w) (markdown_file_of (files ! i) a)"
    using that by (simp add: step_def process_file_begin_def Let_def)
  ultimately show ?thesis by simp
qed

theorem at_most_ten_in_flight_witness:
  "exec quiet_host all_from_in_args
     [Path [] [''in'', ''a.pdf''], Path [] [''in'', ''B.PDF''], Path [] [''in'', ''c.epub'']]
     [Start 0, Start 1]
     (initial_world [Path [] [''in_Markdown''] \<mapsto> Dir], [Pending, Pending, Pending])
   = (\<lparr>fs = [Path [] [''in_Markdown''] \<mapsto> Dir], remote_calls = [''in/a.pdf'', ''in/B.PDF''],
       pbar_n = 0, permits = 8\<rparr>,
      [Awaiting, Awaiting, Pending])
   \<and> awaiting [Awaiting, Awaiting, Pending] = 2
   \<and> step quiet_host all_from_in_args
        [Path [] [''in'', ''a.pdf''], Path [] [''in'', ''B.PDF''], Path [] [''in'', ''c.epub'']]
        (Start 2)
        (\<lparr>fs = [Path [] [''in_Markdown''] \<mapsto> Dir], remote_calls = [''in/a.pdf'', ''in/B.PDF''],
           pbar_n = 0, permits = 8\<rparr>,
         [Awaiting, Awaiting, Pending])
     = (\<lparr>fs = [Path [] [''in_Markdown''] \<mapsto> Dir],
         remote_calls = [''in/a.pdf'', ''in/B.PDF'', ''in/c.epub''], pbar_n = 0, permits = 7\<rparr>,
        [Awaiting, Awaiting, Awaiting])"
proof -
  let ?f = "[Path [] [''in_Markdown''] \<mapsto> Dir]"
  let ?files = "[Path [] [''in'', ''a.pdf''], Path [] [''in'', ''B.PDF''], Path [] [''in'', ''c.epub'']]"
  let ?w = "\<lparr>fs = ?f, remote_calls = [''in/a.pdf'', ''in/B.PDF''], pbar_n = 0, permits = 8\<rparr>"
  let ?ts = "[Awaiting, Awaiting, Pending]"
  have run: "exec quiet_host all_from_in_args ?files [Start 0, Start 1]
      (initial_world ?f, [Pending, Pending, Pending]) = (?w, ?ts)"
    by (simp add: exec_def step_def process_file_begin_def initial_world_def quiet_paths
        path_exists_def)
  have count: "awaiting ?ts = 2" by (simp add: awaiting_def)
  have pre: "2 < length ?ts \<and> ?ts ! 2 = Pending \<and> 0 < permits ?w
      \<and> \<not> path_exists (fs ?w) (markdown_file_of (?files ! 2) all_from_in_args)"
    by (simp add: quiet_paths path_exists_def)
  from at_most_ten_in_flight [of quiet_host all_from_in_args ?files "[Start 0, Start 1]" ?f 2 ?ts ?w]
    run pre
  have "permits ?w + awaiting ?ts = 10"
    and "step quiet_host all_from_in_args ?files (Start 2) (?w, ?ts) =
         (?w\<lparr>permits := permits ?w - 1, remote_calls := remote_calls ?w @ [str (?files ! 2)]\<rparr>,
          ?ts[2 := Awaiting])"
    by simp_all
  with run count show ?thesis by (simp add: quiet_paths eval_nat_numeral)
qed








text \<open>
  C9, corrected. With no \<^verbatim>\<open>--output\<close> (or an empty one), the output directory is the
  sibling of the input directory whose name is the input's name followed by
  \<^verbatim>\<open>_Markdown\<close> when the input path has a last component, and the entry \<^verbatim>\<open>Markdown\<close>
  inside the input directory when it has none (the root, or the current directory).
  The input \<^verbatim>\<open>/data/docs\<close> gives \<^verbatim>\<open>/data/docs_Markdown\<close>.
\<close>

theorem default_output_sibling:
  "(opt_input cl = Some inp \<and> (opt_output cl = None \<or> opt_output cl = Some [])
      \<and> parse_args cl = Inr a \<longrightarrow>
      arg_output a =
        (if name (Path_of inp) \<noteq> [] then sibling_markdown inp
         else str (Path (root (Path_of inp)) [''Markdown''])))
   \<and> parse_args \<lparr>opt_input = Some ''/data/docs'', opt_output = None, opt_format = None\<rparr>
       = Inr \<lparr>arg_input = ''/data/docs'', arg_output = ''/data/docs_Markdown'', arg_format = ''pdf''\<rparr>"
proof (intro conjI impI)
  assume h: "opt_input cl = Some inp \<and> (opt_output cl = None \<or> opt_output cl = Some [])
      \<and> parse_args cl = Inr a"
  then have "arg_output a = default_output inp"
    by (auto simp: parse_args_def Let_def split: option.splits if_splits)
  then show "arg_output a =
        (if name (Path_of inp) \<noteq> [] then sibling_markdown inp
         else str (Path (root (Path_of inp)) [''Markdown'']))"
    using default_output_named [of inp] default_output_unnamed [of inp] by simp
next
  show "parse_args \<lparr>opt_input = Some ''/data/docs'', opt_output = None, opt_format = None\<rparr>
       = Inr \<lparr>arg_input = ''/data/docs'', arg_output = ''/data/docs_Markdown'', arg_format = ''pdf''\<rparr>"
    by (simp add: parse_args_def default_output_def Path_of_def splitroot_def parse_parts_def
        name_def parent_def truediv_def str_def)
qed

theorem default_output_sibling_witness:
  "opt_input all_from_in = Some ''in'' \<and> opt_output all_from_in = None
   \<and> parse_args all_from_in = Inr all_from_in_args
   \<and> name (Path_of ''in'') \<noteq> []
   \<and> arg_output all_from_in_args = sibling_markdown ''in''
   \<and> sibling_markdown ''in'' = ''in_Markdown''"
proof -
  have n: "name (Path_of ''in'') \<noteq> []"
    by (simp add: Path_of_def splitroot_def parse_parts_def name_def)
  have o: "opt_input all_from_in = Some ''in'' \<and> opt_output all_from_in = None"
    by (simp add: all_from_in_def)
  from default_output_sibling [of all_from_in "''in''" all_from_in_args] o parse_all_from_in n
  have "arg_output all_from_in_args = sibling_markdown ''in''" by simp
  with o n parse_all_from_in show ?thesis by (simp add: all_from_in_args_def)
qed

text \<open>
  Against C9 as it is written: for the input \<^verbatim>\<open>/\<close>, which has no name, the default is
  \<^verbatim>\<open>/Markdown\<close>, an entry of the input directory; its name is not the input's name
  followed by \<^verbatim>\<open>_Markdown\<close>.
\<close>

theorem default_output_root_counterexample:
  "parse_args \<lparr>opt_input = Some ''/'', opt_output = None, opt_format = None\<rparr>
     = Inr \<lparr>arg_input = ''/'', arg_output = ''/Markdown'', arg_format = ''pdf''\<rparr>
   \<and> name (Path_of ''/'') @ ''_Markdown'' = ''_Markdown''
   \<and> name (Path_of ''/Markdown'') \<noteq> name (Path_of ''/'') @ ''_Markdown''
   \<and> parent (Path_of ''/Markdown'') = Path_of ''/''"
  by (simp add: parse_args_def default_output_def Path_of_def splitroot_def parse_parts_def
        name_def parent_def truediv_def str_def)

text \<open>
  C10. The key check of line 124 rejects the key exactly when it is unset, empty, or
  the literal \<^verbatim>\<open>your_api_key_here\<close>; once the command line is parsed, the run ends by
  \<^verbatim>\<open>sys.exit(1)\<close> in exactly these cases, and goes on to the batch in every other. A
  value that merely looks like a placeholder, such as the \<^verbatim>\<open>your_actual_api_key_here\<close>
  of the script's own message, is accepted.
\<close>

theorem key_check_exact:
  "(key_rejected k \<longleftrightarrow> k = None \<or> k = Some [] \<or> k = Some ''your_api_key_here'')
   \<and> (parse_args cl = Inr a \<longrightarrow>
        (main cl h f = Sys_exit 1 \<longleftrightarrow> key_rejected (api_key_of h)))
   \<and> \<not> key_rejected (Some ''your_actual_api_key_here'')"
proof (intro conjI impI)
  show "key_rejected k \<longleftrightarrow> k = None \<or> k = Some [] \<or> k = Some ''your_api_key_here''"
    by (rule key_rejected_iff)
next
  assume "parse_args cl = Inr a"
  then show "main cl h f = Sys_exit 1 \<longleftrightarrow> key_rejected (api_key_of h)"
    by (simp add: main_def Let_def split: sum.splits option.splits prod.splits)
next
  show "\<not> key_rejected (Some ''your_actual_api_key_here'')"
    by (simp add: key_rejected_def)
qed

theorem key_check_exact_witness:
  "parse_args all_from_in = Inr all_from_in_args
   \<and> api_key_of quiet_host = Some ''your_actual_api_key_here''
   \<and> main all_from_in quiet_host Map.empty \<noteq> Sys_exit 1"
proof -
  have k: "api_key_of quiet_host = Some ''your_actual_api_key_here''"
    by (simp add: quiet_host_def api_key_of_def py_or_def)
  from key_check_exact [of "api_key_of quiet_host" all_from_in all_from_in_args quiet_host Map.empty]
    parse_all_from_in k
  show ?thesis by simp
qed

end
